theory Spec2Isabelle
  imports Main "HOL-Library.Sublist" "HOL-Library.Multiset" "HOL-Library.AList"
begin

section \<open>Data model\<close>

text \<open>
  A Go \<^verbatim>\<open>map[string]T\<close> is represented by the list of its entries. The keys of
  such a list are distinct (\<open>go_map\<close> below), \<open>map_of\<close> reads it, and a \<^verbatim>\<open>range\<close>
  loop visits the entries in the order of the list. Go leaves the iteration order of a
  map unspecified, so no order of the list is privileged: results about a function
  that ranges over a map are stated for every list.
  Go's \<^verbatim>\<open>int\<close> is 64 bits wide; the counts below are bounded by the number of
  arguments of a call, far from the range where it wraps, and are modelled by \<open>int\<close>.
\<close>

type_synonym 'v gomap = "(string \<times> 'v) list"

definition go_map :: "'v gomap \<Rightarrow> bool" where
  "go_map m = distinct (map fst m)"

text \<open>The assignment \<^verbatim>\<open>m[k] = v\<close>: replaces the entry of \<open>k\<close> or adds one.\<close>

definition map_store :: "'v gomap \<Rightarrow> string \<Rightarrow> 'v \<Rightarrow> 'v gomap" where
  "map_store m k v = AList.update k v m"

record CountryMusicDocument =
  RuleID :: string
  Artist :: string
  Title :: string
  LyricQuote :: string
  VideoLink :: string
  Themes :: "string gomap"

record UserSelections =
  Adventure :: bool
  America :: bool
  CarsTrucksTractors :: bool
  Goodtimes :: bool
  Grit :: bool
  Home :: bool
  Love :: bool
  HeartBreak :: bool
  Lessons :: bool
  Rebellion :: bool
  Recommendations :: "int gomap"

text \<open>
  The two errors \<^verbatim>\<open>GetField\<close> builds with \<^verbatim>\<open>fmt.Errorf\<close>, and the panics of the
  program: \<^verbatim>\<open>panic(err)\<close> on such an error, and the run-time panic of a slice
  expression whose bound is out of range.
\<close>

datatype error = FieldDoesNotExist string | FieldIsNotABoolean string

datatype panic = PanicError error | PanicSliceBounds int

section \<open>Matching and scoring\<close>

text \<open>
  \<^verbatim>\<open>GetField\<close> looks the field up by reflection: the name must be exactly the name of
  a field of the struct. \<^verbatim>\<open>Recommendations\<close> is a field, but not a boolean one.
\<close>

definition GetField :: "UserSelections \<Rightarrow> string \<Rightarrow> error + bool" where
  "GetField p fieldName =
     (if fieldName = ''Adventure'' then Inr (Adventure p)
      else if fieldName = ''America'' then Inr (America p)
      else if fieldName = ''CarsTrucksTractors'' then Inr (CarsTrucksTractors p)
      else if fieldName = ''Goodtimes'' then Inr (Goodtimes p)
      else if fieldName = ''Grit'' then Inr (Grit p)
      else if fieldName = ''Home'' then Inr (Home p)
      else if fieldName = ''Love'' then Inr (Love p)
      else if fieldName = ''HeartBreak'' then Inr (HeartBreak p)
      else if fieldName = ''Lessons'' then Inr (Lessons p)
      else if fieldName = ''Rebellion'' then Inr (Rebellion p)
      else if fieldName = ''Recommendations'' then Inl (FieldIsNotABoolean fieldName)
      else Inl (FieldDoesNotExist fieldName))"

text \<open>The fixed vocabulary: the names of the ten boolean fields.\<close>

definition vocabulary :: "string list" where
  "vocabulary = [''Adventure'', ''America'', ''CarsTrucksTractors'', ''Goodtimes'', ''Grit'',
     ''Home'', ''Love'', ''HeartBreak'', ''Lessons'', ''Rebellion'']"

text \<open>
  \<^verbatim>\<open>IsSongThemeMatch\<close>: the loop returns at the first selected theme and panics at the
  first name \<^verbatim>\<open>GetField\<close> rejects, whichever comes first. The song identifier is only
  printed.
\<close>

fun IsSongThemeMatch :: "UserSelections \<Rightarrow> string \<Rightarrow> string list \<Rightarrow> panic + bool" where
  "IsSongThemeMatch p songId [] = Inr False"
| "IsSongThemeMatch p songId (theme # songThemes) =
     (case GetField p theme of
        Inl err \<Rightarrow> Inl (PanicError err)
      | Inr boolValue \<Rightarrow> if boolValue then Inr True else IsSongThemeMatch p songId songThemes)"

text \<open>The counting loop shared by both versions of \<^verbatim>\<open>SetRecommendations\<close>.\<close>

fun countMatches :: "UserSelections \<Rightarrow> string list \<Rightarrow> int \<Rightarrow> panic + int" where
  "countMatches p [] matchCount = Inr matchCount"
| "countMatches p (theme # songThemes) matchCount =
     (case GetField p theme of
        Inl err \<Rightarrow> Inl (PanicError err)
      | Inr boolValue \<Rightarrow>
          if boolValue then countMatches p songThemes (matchCount + 1)
          else countMatches p songThemes matchCount)"

text \<open>
  \<^verbatim>\<open>SetRecommendations\<close> of the program with the selection pipeline (the first file
  of \<^verbatim>\<open>src/unnamed/part_000\<close>): count, scale by ten, subtract the penalty, store,
  return. The receiver is a pointer: the updated record is returned with the score.
  The map is the one \<^verbatim>\<open>getUserSelections\<close> made; it is never nil.
\<close>

definition SetRecommendations ::
    "UserSelections \<Rightarrow> string \<Rightarrow> string list \<Rightarrow> panic + (UserSelections \<times> int)" where
  "SetRecommendations p songId songThemes =
     (case countMatches p songThemes 0 of
        Inl pnc \<Rightarrow> Inl pnc
      | Inr counted \<Rightarrow>
          let scaled = counted * 10;
              matchCount = scaled - (int (length songThemes) - scaled)
          in Inr (p\<lparr>Recommendations := map_store (Recommendations p) songId matchCount\<rparr>,
                  matchCount))"

text \<open>
  \<^verbatim>\<open>SetRecommendations\<close> of \<^verbatim>\<open>src/country.go\<close>: the same loop, and the count is stored
  as it is, with neither the scaling nor the penalty.
\<close>

definition SetRecommendations_country ::
    "UserSelections \<Rightarrow> string \<Rightarrow> string list \<Rightarrow> panic + (UserSelections \<times> int)" where
  "SetRecommendations_country p songId songThemes =
     (case countMatches p songThemes 0 of
        Inl pnc \<Rightarrow> Inl pnc
      | Inr matchCount \<Rightarrow>
          Inr (p\<lparr>Recommendations := map_store (Recommendations p) songId matchCount\<rparr>,
               matchCount))"

text \<open>
  The number of themes of a call that the user selected, as the specification words
  it: the themes whose boolean field is set.
\<close>

definition selectedCount :: "UserSelections \<Rightarrow> string list \<Rightarrow> int" where
  "selectedCount p themes = int (length (filter (\<lambda>t. GetField p t = Inr True) themes))"

text \<open>A user who selected Home and nothing else, with an empty score map.\<close>

definition homeOnly :: UserSelections where
  "homeOnly = \<lparr>Adventure = False, America = False, CarsTrucksTractors = False,
     Goodtimes = False, Grit = False, Home = True, Love = False, HeartBreak = False,
     Lessons = False, Rebellion = False, Recommendations = []\<rparr>"

section \<open>The rule compiler\<close>

definition dq :: char where
  "dq = CHR 0x22"

definition nl :: char where
  "nl = CHR 0x0A"

text \<open>\<^verbatim>\<open>fmt.Sprintf("\"%s\"", s)\<close>: the argument between two double quotes, as it is.\<close>

definition quoted :: "string \<Rightarrow> string" where
  "quoted s = dq # s @ [dq]"

text \<open>\<^verbatim>\<open>strings.Join\<close>.\<close>

fun Join :: "string list \<Rightarrow> string \<Rightarrow> string" where
  "Join [] sep = []"
| "Join [x] sep = x"
| "Join (x # y # zs) sep = x @ sep @ Join (y # zs) sep"

text \<open>
  \<^verbatim>\<open>strings.ToUpper\<close> on the one-byte string \<^verbatim>\<open>s[:1]\<close>: an ASCII lower-case letter
  loses 32; any other ASCII byte stays; a byte from 0x80 on is not valid UTF-8 by
  itself, and the library writes the replacement character U+FFFD (three bytes) for it.
\<close>

definition ToUpper_byte :: "char \<Rightarrow> string" where
  "ToUpper_byte c =
     (if (of_char c :: nat) < 128 then
        (if 97 \<le> (of_char c :: nat) \<and> (of_char c :: nat) \<le> 122
         then [char_of ((of_char c :: nat) - 32)] else [c])
      else [CHR 0xEF, CHR 0xBF, CHR 0xBD])"

fun capitalizeFirstLetter :: "string \<Rightarrow> string" where
  "capitalizeFirstLetter [] = []"
| "capitalizeFirstLetter (c # s) = ToUpper_byte c @ s"

text \<open>The inner loop of \<^verbatim>\<open>extractGrules\<close>: the quoted, capitalised names of the themes
  whose description is not empty, in the order the map is visited.\<close>

fun ruleThemes :: "string gomap \<Rightarrow> string list" where
  "ruleThemes [] = []"
| "ruleThemes ((theme, desc) # rest) =
     (if desc \<noteq> [] then quoted (capitalizeFirstLetter theme) # ruleThemes rest
      else ruleThemes rest)"

text \<open>\<^verbatim>\<open>fmt.Sprintf(ruleFormat, ...)\<close> for one document: the seven \<^verbatim>\<open>%s\<close> of the
  template filled in, every argument copied as it is.\<close>

definition ruleText :: "CountryMusicDocument \<Rightarrow> string" where
  "ruleText document =
     (let themes = Join (ruleThemes (Themes document)) '', ''
      in ''rule Check'' @ RuleID document @ '' '' @ [dq] @ Title document @ [dq]
           @ '' salience 10 {'' @ [nl]
         @ replicate 12 CHR '' '' @ ''when'' @ [nl]
         @ replicate 15 CHR '' '' @ ''UserSelections.IsSongThemeMatch(''
           @ quoted (RuleID document) @ '', '' @ themes @ '')'' @ [nl]
         @ replicate 12 CHR '' '' @ ''then'' @ [nl]
         @ replicate 15 CHR '' '' @ ''UserSelections.SetRecommendations(''
           @ quoted (RuleID document) @ '', '' @ themes @ '');'' @ [nl]
         @ replicate 15 CHR '' '' @ ''Retract('' @ [dq] @ ''Check'' @ RuleID document @ [dq]
           @ '');'' @ [nl]
         @ replicate 8 CHR '' '' @ ''}'')"

definition extractGrules :: "CountryMusicDocument list \<Rightarrow> string" where
  "extractGrules documents = Join (map ruleText documents) [nl, nl]"

section \<open>Selection\<close>

text \<open>
  \<^verbatim>\<open>sort.Slice\<close> is not stable, and the library documents only its contract: the
  result is a rearrangement of the slice in which no element is less than one before
  it. It is a parameter of the functions that sort, and \<open>sort_Slice_contract\<close> is the
  contract for the comparison of \<^verbatim>\<open>getTopNRecommendations\<close>.
\<close>

type_synonym 'a sorter = "('a \<Rightarrow> 'a \<Rightarrow> bool) \<Rightarrow> 'a list \<Rightarrow> 'a list"

text \<open>The comparison \<^verbatim>\<open>sortedList[i].Value > sortedList[j].Value\<close>.\<close>

definition byValueDesc :: "string \<times> int \<Rightarrow> string \<times> int \<Rightarrow> bool" where
  "byValueDesc a b = (snd a > snd b)"

definition sort_Slice_contract :: "(string \<times> int) sorter \<Rightarrow> bool" where
  "sort_Slice_contract srt \<longleftrightarrow>
     (\<forall>xs. mset (srt byValueDesc xs) = mset xs
         \<and> sorted_wrt (\<lambda>a b. \<not> byValueDesc b a) (srt byValueDesc xs))"

text \<open>
  Insertion sort, one sorter that meets the contract, for evaluating examples: each
  element moves left while it is less than its left neighbour. \<open>sink\<close> works on the
  sorted prefix read from its right end.
\<close>

fun sink :: "('a \<Rightarrow> 'a \<Rightarrow> bool) \<Rightarrow> 'a \<Rightarrow> 'a list \<Rightarrow> 'a list" where
  "sink lessFn x [] = [x]"
| "sink lessFn x (y # ys) = (if lessFn x y then y # sink lessFn x ys else x # y # ys)"

definition insertionSort :: "'a sorter" where
  "insertionSort lessFn xs = rev (foldl (\<lambda>prefix x. sink lessFn x prefix) [] xs)"

text \<open>
  \<^verbatim>\<open>getTopNRecommendations\<close>: the entries of the map in the order \<^verbatim>\<open>range\<close> visits
  them, sorted, cut to \<open>N\<close>. \<open>N\<close> is a Go \<^verbatim>\<open>int\<close>: a negative \<open>N\<close> is not less than the
  length, so it reaches the slice expression \<^verbatim>\<open>sortedList[:N]\<close>, which panics.
\<close>

definition getTopNRecommendations ::
    "(string \<times> int) sorter \<Rightarrow> int gomap \<Rightarrow> int \<Rightarrow> panic + string list" where
  "getTopNRecommendations srt recommendations N =
     (let sortedList = srt byValueDesc recommendations;
          N' = (if int (length sortedList) < N then int (length sortedList) else N)
      in if N' < 0 then Inl (PanicSliceBounds N')
         else Inr (map fst (take (nat N') sortedList)))"

text \<open>Reading a \<^verbatim>\<open>map[string]int\<close>: a missing key reads as zero.\<close>

definition lookup_int :: "int gomap \<Rightarrow> string \<Rightarrow> int" where
  "lookup_int m k = (case map_of m k of Some v \<Rightarrow> v | None \<Rightarrow> 0)"

text \<open>Reading a \<^verbatim>\<open>map[string]bool\<close>: a missing key reads as false.\<close>

definition lookup_bool :: "bool gomap \<Rightarrow> string \<Rightarrow> bool" where
  "lookup_bool m k = (case map_of m k of Some b \<Rightarrow> b | None \<Rightarrow> False)"

text \<open>\<^verbatim>\<open>filterDocuments\<close>: the identifiers go into a set (\<open>ruleIDMap\<close>), and the
  documents are visited in the order of the catalog.\<close>

fun ruleIDMap :: "string list \<Rightarrow> bool gomap \<Rightarrow> bool gomap" where
  "ruleIDMap [] m = m"
| "ruleIDMap (rid # rids) m = ruleIDMap rids (map_store m rid True)"

fun filterDocuments_loop ::
    "bool gomap \<Rightarrow> CountryMusicDocument list \<Rightarrow> CountryMusicDocument list" where
  "filterDocuments_loop m [] = []"
| "filterDocuments_loop m (doc # documents) =
     (if lookup_bool m (RuleID doc) then doc # filterDocuments_loop m documents
      else filterDocuments_loop m documents)"

definition filterDocuments ::
    "CountryMusicDocument list \<Rightarrow> string list \<Rightarrow> CountryMusicDocument list" where
  "filterDocuments documents topRuleIDs = filterDocuments_loop (ruleIDMap topRuleIDs []) documents"

section \<open>Redaction\<close>

text \<open>
  \<^verbatim>\<open>strings.ToLower\<close>: on a string of ASCII bytes, every upper-case letter gains 32. On
  any other string the library maps each Unicode letter to its lower case; that
  mapping is the parameter \<open>unicodeLower\<close>, and nothing below depends on what it is.
\<close>

definition ToLower_byte :: "char \<Rightarrow> char" where
  "ToLower_byte c =
     (if 65 \<le> (of_char c :: nat) \<and> (of_char c :: nat) \<le> 90
      then char_of ((of_char c :: nat) + 32) else c)"

definition ToLower :: "(string \<Rightarrow> string) \<Rightarrow> string \<Rightarrow> string" where
  "ToLower unicodeLower s =
     (if list_all (\<lambda>c. (of_char c :: nat) < 128) s then map ToLower_byte s
      else unicodeLower s)"

text \<open>The map literal \<open>themeKeys\<close>: the lower-cased field names with the user's flags.\<close>

definition themeKeys :: "(string \<Rightarrow> string) \<Rightarrow> UserSelections \<Rightarrow> bool gomap" where
  "themeKeys unicodeLower userSelections =
     [(ToLower unicodeLower ''Adventure'', Adventure userSelections),
      (ToLower unicodeLower ''America'', America userSelections),
      (ToLower unicodeLower ''CarsTrucksTractors'', CarsTrucksTractors userSelections),
      (ToLower unicodeLower ''Goodtimes'', Goodtimes userSelections),
      (ToLower unicodeLower ''Grit'', Grit userSelections),
      (ToLower unicodeLower ''Home'', Home userSelections),
      (ToLower unicodeLower ''Love'', Love userSelections),
      (ToLower unicodeLower ''HeartBreak'', HeartBreak userSelections),
      (ToLower unicodeLower ''Lessons'', Lessons userSelections),
      (ToLower unicodeLower ''Rebellion'', Rebellion userSelections)]"

text \<open>The inner loop of \<^verbatim>\<open>generateThemeUpdatedDocs\<close>: every theme of the document is
  written to the new map, with its value or with the empty string.\<close>

fun updatedThemes ::
    "(string \<Rightarrow> string) \<Rightarrow> bool gomap \<Rightarrow> string gomap \<Rightarrow> string gomap \<Rightarrow> string gomap" where
  "updatedThemes unicodeLower keys [] updated = updated"
| "updatedThemes unicodeLower keys ((theme, val) # rest) updated =
     (let normalizedTheme = ToLower unicodeLower theme
      in if lookup_bool keys normalizedTheme
         then updatedThemes unicodeLower keys rest (map_store updated theme val)
         else updatedThemes unicodeLower keys rest (map_store updated theme []))"

definition updatedDoc ::
    "(string \<Rightarrow> string) \<Rightarrow> bool gomap \<Rightarrow> CountryMusicDocument \<Rightarrow> CountryMusicDocument" where
  "updatedDoc unicodeLower keys doc =
     \<lparr>RuleID = RuleID doc, Artist = Artist doc, Title = Title doc,
      LyricQuote = LyricQuote doc, VideoLink = VideoLink doc,
      Themes = updatedThemes unicodeLower keys (Themes doc) []\<rparr>"

definition generateThemeUpdatedDocs ::
    "(string \<Rightarrow> string) \<Rightarrow> CountryMusicDocument list \<Rightarrow> UserSelections
       \<Rightarrow> CountryMusicDocument list" where
  "generateThemeUpdatedDocs unicodeLower filteredDocs userSelections =
     map (updatedDoc unicodeLower (themeKeys unicodeLower userSelections)) filteredDocs"

text \<open>
  A theme key is selected by the user under case-insensitive comparison when some
  vocabulary name that the user selected has the same lower-case form.
\<close>

definition selected_ci :: "(string \<Rightarrow> string) \<Rightarrow> UserSelections \<Rightarrow> string \<Rightarrow> bool" where
  "selected_ci unicodeLower u theme =
     list_ex (\<lambda>name. GetField u name = Inr True
                \<and> ToLower unicodeLower name = ToLower unicodeLower theme) vocabulary"

section \<open>The pipeline\<close>

text \<open>\<^verbatim>\<open>filterDocumentsByRecommendations\<close>: the three best identifiers, the documents
  that carry one of them, and their redaction.\<close>

definition filterDocumentsByRecommendations ::
    "(string \<times> int) sorter \<Rightarrow> (string \<Rightarrow> string) \<Rightarrow> CountryMusicDocument list
       \<Rightarrow> UserSelections \<Rightarrow> panic + CountryMusicDocument list" where
  "filterDocumentsByRecommendations srt unicodeLower documents userSelections =
     (case getTopNRecommendations srt (Recommendations userSelections) 3 of
        Inl pnc \<Rightarrow> Inl pnc
      | Inr topRuleIDs \<Rightarrow>
          let filteredDocs = filterDocuments documents topRuleIDs
          in Inr (generateThemeUpdatedDocs unicodeLower filteredDocs userSelections))"

section \<open>Example data\<close>

definition song :: "string \<Rightarrow> string \<Rightarrow> string gomap \<Rightarrow> CountryMusicDocument" where
  "song rid title themes =
     \<lparr>RuleID = rid, Artist = ''artist'', Title = title, LyricQuote = ''quote'',
      VideoLink = ''link'', Themes = themes\<rparr>"

text \<open>A document whose eleven theme keys are distinct and capitalise to six vocabulary
  names, five of them twice.\<close>

definition manyThemes :: CountryMusicDocument where
  "manyThemes = song ''1'' ''T''
     [(''Home'', ''x''), (''love'', ''x''), (''Love'', ''x''), (''grit'', ''x''), (''Grit'', ''x''),
      (''america'', ''x''), (''America'', ''x''), (''lessons'', ''x''), (''Lessons'', ''x''),
      (''rebellion'', ''x''), (''Rebellion'', ''x'')]"

definition manyThemes_names :: "string list" where
  "manyThemes_names = [''Home'', ''Love'', ''Love'', ''Grit'', ''Grit'', ''America'', ''America'',
     ''Lessons'', ''Lessons'', ''Rebellion'', ''Rebellion'']"

text \<open>
  A catalog of two documents, A before B, and the user \<open>homeOnly\<close> after the rules of
  both have fired: A has the themes Home and Love and scores 18, B has the theme Home
  and scores 19.
\<close>

definition catalogAB :: "CountryMusicDocument list" where
  "catalogAB = [song ''A'' ''T'' [(''Home'', ''x''), (''Love'', ''y'')],
                song ''B'' ''U'' [(''Home'', ''z'')]]"

definition scoredAB :: UserSelections where
  "scoredAB = homeOnly\<lparr>Recommendations := [(''A'', 18), (''B'', 19)]\<rparr>"

text \<open>A document whose only theme has an empty description, and a document whose title
  is one double quote.\<close>

definition noThemes :: CountryMusicDocument where
  "noThemes = song ''1'' ''T'' [(''home'', '''')]"

definition quoteTitle :: CountryMusicDocument where
  "quoteTitle = song ''1'' [dq] [(''home'', ''x'')]"

section \<open>Facts about the field lookup and the two loops\<close>

lemma GetField_vocabulary: "t \<in> set vocabulary \<Longrightarrow> \<exists>b. GetField p t = Inr b"
  by (auto simp: vocabulary_def GetField_def)

lemma GetField_not_vocabulary: "t \<notin> set vocabulary \<Longrightarrow> \<exists>e. GetField p t = Inl e"
  by (auto simp: vocabulary_def GetField_def)

lemma GetField_Inr_iff: "(\<exists>b. GetField p t = Inr b) \<longleftrightarrow> t \<in> set vocabulary"
proof
  assume "\<exists>b. GetField p t = Inr b"
  then show "t \<in> set vocabulary"
    using GetField_not_vocabulary [of t p] by (cases "t \<in> set vocabulary") auto
next
  assume "t \<in> set vocabulary"
  then show "\<exists>b. GetField p t = Inr b" by (rule GetField_vocabulary)
qed

lemma countMatches_vocabulary:
  "\<forall>t \<in> set themes. t \<in> set vocabulary \<Longrightarrow>
   countMatches p themes n = Inr (n + selectedCount p themes)"
proof (induction themes arbitrary: n)
  case Nil
  then show ?case by (simp add: selectedCount_def)
next
  case (Cons t themes)
  from Cons.prems obtain b where b: "GetField p t = Inr b"
    using GetField_vocabulary [of t p] by auto
  from Cons.prems have rest: "\<forall>t \<in> set themes. t \<in> set vocabulary" by simp
  show ?case
    using Cons.IH [OF rest] b by (cases b) (simp_all add: selectedCount_def)
qed

lemma countMatches_unknown:
  "t \<in> set themes \<Longrightarrow> t \<notin> set vocabulary \<Longrightarrow> \<exists>e. countMatches p themes n = Inl (PanicError e)"
proof (induction themes arbitrary: n)
  case Nil
  then show ?case by simp
next
  case (Cons a themes)
  show ?case
  proof (cases "GetField p a")
    case (Inl e)
    then show ?thesis by simp
  next
    case (Inr b)
    then have "a \<in> set vocabulary" using GetField_Inr_iff [of p a] by auto
    with Cons.prems have "t \<in> set themes" by auto
    from Cons.IH [OF this Cons.prems(2)] Inr show ?thesis by simp
  qed
qed

lemma IsSongThemeMatch_vocabulary:
  "\<forall>t \<in> set themes. t \<in> set vocabulary \<Longrightarrow>
   IsSongThemeMatch p sid themes = Inr (\<exists>t \<in> set themes. GetField p t = Inr True)"
proof (induction themes)
  case Nil
  then show ?case by simp
next
  case (Cons t themes)
  from Cons.prems obtain b where b: "GetField p t = Inr b"
    using GetField_vocabulary [of t p] by auto
  from Cons.prems have rest: "\<forall>t \<in> set themes. t \<in> set vocabulary" by simp
  show ?case using Cons.IH [OF rest] b by (cases b) simp_all
qed

lemma IsSongThemeMatch_unknown_first:
  "\<forall>x \<in> set pre. GetField p x = Inr False \<Longrightarrow> GetField p t = Inl e \<Longrightarrow>
   IsSongThemeMatch p sid (pre @ t # post) = Inl (PanicError e)"
  by (induction pre) simp_all

lemma IsSongThemeMatch_selected_first:
  "\<forall>x \<in> set pre. GetField p x = Inr False \<Longrightarrow> GetField p t = Inr True \<Longrightarrow>
   IsSongThemeMatch p sid (pre @ t # post) = Inr True"
  by (induction pre) simp_all

lemma IsSongThemeMatch_True_selected:
  "IsSongThemeMatch p sid themes = Inr True \<Longrightarrow> \<exists>t \<in> set themes. GetField p t = Inr True"
  by (induction themes) (auto split: sum.splits if_splits)

lemma selectedCount_pos:
  "\<exists>t \<in> set themes. GetField p t = Inr True \<Longrightarrow> 1 \<le> selectedCount p themes"
proof -
  assume "\<exists>t \<in> set themes. GetField p t = Inr True"
  then have "filter (\<lambda>t. GetField p t = Inr True) themes \<noteq> []"
    by (simp add: filter_empty_conv)
  then have "0 < length (filter (\<lambda>t. GetField p t = Inr True) themes)" by simp
  then show ?thesis unfolding selectedCount_def by linarith
qed

lemma map_of_map_store: "map_of (map_store m k v) = (map_of m)(k \<mapsto> v)"
  by (simp add: map_store_def update_conv')

lemma homeOnly_fields:
  "GetField homeOnly ''Home'' = Inr True"
  "GetField homeOnly ''Love'' = Inr False"
  "GetField homeOnly ''Grit'' = Inr False"
  "GetField homeOnly ''America'' = Inr False"
  "GetField homeOnly ''Lessons'' = Inr False"
  "GetField homeOnly ''Rebellion'' = Inr False"
  "GetField homeOnly ''Foo'' = Inl (FieldDoesNotExist ''Foo'')"
  "GetField homeOnly ''Recommendations'' = Inl (FieldIsNotABoolean ''Recommendations'')"
  by (simp_all add: GetField_def homeOnly_def)

lemma homeOnly_Recommendations: "Recommendations homeOnly = []"
  by (simp add: homeOnly_def)

lemma IsSongThemeMatch_False_all:
  "IsSongThemeMatch p sid themes = Inr False \<Longrightarrow> \<forall>t \<in> set themes. GetField p t = Inr False"
  by (induction themes) (auto split: sum.splits if_splits)

lemma SetRecommendations_vocabulary:
  assumes "\<forall>t \<in> set themes. t \<in> set vocabulary"
  shows "SetRecommendations p sid themes =
           Inr (p\<lparr>Recommendations := map_store (Recommendations p) sid
                     (20 * selectedCount p themes - int (length themes))\<rparr>,
                20 * selectedCount p themes - int (length themes))"
proof -
  have "countMatches p themes 0 = Inr (selectedCount p themes)"
    using countMatches_vocabulary [OF assms, of p 0] by simp
  moreover have "selectedCount p themes * 10 - (int (length themes) - selectedCount p themes * 10)
      = 20 * selectedCount p themes - int (length themes)"
    by simp
  ultimately show ?thesis by (simp add: SetRecommendations_def Let_def)
qed

lemma SetRecommendations_country_vocabulary:
  assumes "\<forall>t \<in> set themes. t \<in> set vocabulary"
  shows "SetRecommendations_country p sid themes =
           Inr (p\<lparr>Recommendations := map_store (Recommendations p) sid (selectedCount p themes)\<rparr>,
                selectedCount p themes)"
  using countMatches_vocabulary [OF assms, of p 0] by (simp add: SetRecommendations_country_def)

section \<open>The score a fired rule records\<close>

text \<open>
  C1, as stated, at the scorer of \<^verbatim>\<open>src/country.go\<close>: with Home selected and the one
  theme Home, the claim's formula gives 19, and the function stores and returns 1.
\<close>

theorem SetRecommendations_country_unscaled:
  "SetRecommendations_country homeOnly ''10000'' [''Home'']
     = Inr (homeOnly\<lparr>Recommendations := [(''10000'', 1)]\<rparr>, 1)
   \<and> 20 * selectedCount homeOnly [''Home''] - int (length [''Home'']) = 19"
  by (simp add: SetRecommendations_country_def selectedCount_def homeOnly_fields map_store_def
      homeOnly_Recommendations)

text \<open>
  C1, amended: when every theme passed names a boolean field, \<^verbatim>\<open>SetRecommendations\<close>
  of the pipeline program returns \<open>20 * matchCount - themeCount\<close> and stores it under the
  song identifier, leaving every other entry and every flag as it was; the
  \<^verbatim>\<open>SetRecommendations\<close> of \<^verbatim>\<open>src/country.go\<close> stores and returns \<open>matchCount\<close> itself.
\<close>

theorem SetRecommendations_score:
  assumes "\<forall>t \<in> set themes. t \<in> set vocabulary"
  shows "(\<exists>p'. SetRecommendations p sid themes
              = Inr (p', 20 * selectedCount p themes - int (length themes))
            \<and> map_of (Recommendations p')
                = (map_of (Recommendations p))
                    (sid \<mapsto> 20 * selectedCount p themes - int (length themes))
            \<and> p'\<lparr>Recommendations := Recommendations p\<rparr> = p)
       \<and> (\<exists>p'. SetRecommendations_country p sid themes = Inr (p', selectedCount p themes)
            \<and> map_of (Recommendations p')
                = (map_of (Recommendations p))(sid \<mapsto> selectedCount p themes)
            \<and> p'\<lparr>Recommendations := Recommendations p\<rparr> = p)"
  using SetRecommendations_vocabulary [OF assms, of p sid]
    SetRecommendations_country_vocabulary [OF assms, of p sid]
  by (simp add: map_of_map_store)

theorem SetRecommendations_score_witness:
  "set [''Home'', ''Love''] \<subseteq> set vocabulary
   \<and> (\<exists>p'. SetRecommendations homeOnly ''A'' [''Home'', ''Love''] = Inr (p', 18)
         \<and> map_of (Recommendations p') = (map_of (Recommendations homeOnly))(''A'' \<mapsto> 18))
   \<and> (\<exists>p'. SetRecommendations_country homeOnly ''A'' [''Home'', ''Love''] = Inr (p', 1)
         \<and> map_of (Recommendations p') = (map_of (Recommendations homeOnly))(''A'' \<mapsto> 1))"
proof -
  have voc: "\<forall>t \<in> set [''Home'', ''Love'']. t \<in> set vocabulary"
    by (simp add: vocabulary_def)
  have cnt: "selectedCount homeOnly [''Home'', ''Love''] = 1"
    by (simp add: selectedCount_def homeOnly_fields)
  have "(\<exists>p'. SetRecommendations homeOnly ''A'' [''Home'', ''Love''] = Inr (p', 18)
            \<and> map_of (Recommendations p') = (map_of (Recommendations homeOnly))(''A'' \<mapsto> 18)
            \<and> p'\<lparr>Recommendations := Recommendations homeOnly\<rparr> = homeOnly)
      \<and> (\<exists>p'. SetRecommendations_country homeOnly ''A'' [''Home'', ''Love''] = Inr (p', 1)
            \<and> map_of (Recommendations p') = (map_of (Recommendations homeOnly))(''A'' \<mapsto> 1)
            \<and> p'\<lparr>Recommendations := Recommendations homeOnly\<rparr> = homeOnly)"
    using SetRecommendations_score [OF voc, of homeOnly "''A''"] by (simp add: cnt)
  moreover have "set [''Home'', ''Love''] \<subseteq> set vocabulary"
    using voc by auto
  ultimately show ?thesis by blast
qed

section \<open>Theme names outside the vocabulary\<close>

text \<open>
  C3, as stated, fails: \<^verbatim>\<open>Foo\<close> names no field, and both functions panic on it instead
  of reading it as false.
\<close>

theorem unknown_theme_panics_counterexample:
  "''Foo'' \<notin> set vocabulary
   \<and> IsSongThemeMatch homeOnly ''1'' [''Foo''] = Inl (PanicError (FieldDoesNotExist ''Foo''))
   \<and> SetRecommendations homeOnly ''1'' [''Home'', ''Foo'']
       = Inl (PanicError (FieldDoesNotExist ''Foo''))"
  by (simp add: vocabulary_def SetRecommendations_def homeOnly_fields)

text \<open>
  C3, amended: a theme name outside the vocabulary is an error of \<^verbatim>\<open>GetField\<close>, and
  the error is a panic of the caller. \<^verbatim>\<open>SetRecommendations\<close> panics whenever its list
  holds such a name. \<^verbatim>\<open>IsSongThemeMatch\<close> never answers false on such a list: it
  panics when it reaches the name before a selected theme, and answers true without
  looking at it otherwise. On a list of vocabulary names both return.
\<close>

theorem unknown_theme_panics:
  assumes "t \<notin> set vocabulary" and "t \<in> set themes"
  shows "(\<exists>e. GetField p t = Inl e)
       \<and> (\<exists>e. SetRecommendations p sid themes = Inl (PanicError e))
       \<and> IsSongThemeMatch p sid themes \<noteq> Inr False
       \<and> ((\<forall>x \<in> set pre. GetField p x = Inr False)
            \<longrightarrow> (\<exists>e. IsSongThemeMatch p sid (pre @ t # post) = Inl (PanicError e)))
       \<and> ((\<forall>x \<in> set pre. GetField p x = Inr False) \<and> GetField p s = Inr True
            \<longrightarrow> IsSongThemeMatch p sid (pre @ s # t # post) = Inr True)
       \<and> ((\<forall>x \<in> set known. x \<in> set vocabulary)
            \<longrightarrow> (\<exists>b. IsSongThemeMatch p sid known = Inr b)
                \<and> (\<exists>r. SetRecommendations p sid known = Inr r))"
proof -
  obtain e where e: "GetField p t = Inl e"
    using GetField_not_vocabulary [OF assms(1), of p] by auto
  have a: "\<exists>e. GetField p t = Inl e" using e by auto
  have b: "\<exists>e. SetRecommendations p sid themes = Inl (PanicError e)"
    using countMatches_unknown [OF assms(2) assms(1), of p 0]
    by (auto simp: SetRecommendations_def)
  have c: "IsSongThemeMatch p sid themes \<noteq> Inr False"
    using IsSongThemeMatch_False_all [of p sid themes] assms(2) e by auto
  have d: "(\<forall>x \<in> set pre. GetField p x = Inr False)
            \<longrightarrow> (\<exists>e. IsSongThemeMatch p sid (pre @ t # post) = Inl (PanicError e))"
    using IsSongThemeMatch_unknown_first [of pre p t e sid post] e by auto
  have f: "(\<forall>x \<in> set pre. GetField p x = Inr False) \<and> GetField p s = Inr True
            \<longrightarrow> IsSongThemeMatch p sid (pre @ s # t # post) = Inr True"
    using IsSongThemeMatch_selected_first [of pre p s sid "t # post"] by auto
  have g: "(\<forall>x \<in> set known. x \<in> set vocabulary)
            \<longrightarrow> (\<exists>b. IsSongThemeMatch p sid known = Inr b)
                \<and> (\<exists>r. SetRecommendations p sid known = Inr r)"
    using IsSongThemeMatch_vocabulary [of known p sid]
      SetRecommendations_vocabulary [of known p sid] by auto
  from a b c d f g show ?thesis by blast
qed

theorem unknown_theme_panics_witness:
  "''Foo'' \<notin> set vocabulary \<and> ''Foo'' \<in> set [''Love'', ''Foo'']
   \<and> (\<exists>e. SetRecommendations homeOnly ''1'' [''Love'', ''Foo''] = Inl (PanicError e))
   \<and> (\<exists>e. IsSongThemeMatch homeOnly ''1'' ([''Love''] @ ''Foo'' # []) = Inl (PanicError e))
   \<and> IsSongThemeMatch homeOnly ''1'' ([''Love''] @ ''Home'' # ''Foo'' # []) = Inr True"
proof -
  have h1: "''Foo'' \<notin> set vocabulary" by (simp add: vocabulary_def)
  have h2: "''Foo'' \<in> set [''Love'', ''Foo'']" by simp
  show ?thesis
    using h1 h2
      unknown_theme_panics [OF h1 h2, of homeOnly "''1''" "[''Love'']" "[]" "''Home''"]
    by (simp add: homeOnly_fields)
qed

section \<open>A lower bound of the recorded score\<close>

text \<open>
  C9, as stated, fails: the eleven keys of \<open>manyThemes\<close> are distinct and give a rule
  with eleven theme names, all in the vocabulary; with Home selected the condition of
  the rule is true and the action stores 9.
\<close>

theorem score_below_ten_counterexample:
  "go_map (Themes manyThemes)
   \<and> ruleThemes (Themes manyThemes) = map quoted manyThemes_names
   \<and> set manyThemes_names \<subseteq> set vocabulary
   \<and> IsSongThemeMatch homeOnly ''1'' manyThemes_names = Inr True
   \<and> SetRecommendations homeOnly ''1'' manyThemes_names
       = Inr (homeOnly\<lparr>Recommendations := [(''1'', 9)]\<rparr>, 9)"
proof -
  have "go_map (Themes manyThemes)"
    by (simp add: go_map_def manyThemes_def song_def)
  moreover have "ruleThemes (Themes manyThemes) = map quoted manyThemes_names"
    by code_simp
  moreover have "set manyThemes_names \<subseteq> set vocabulary"
    by (simp add: manyThemes_names_def vocabulary_def)
  moreover have "IsSongThemeMatch homeOnly ''1'' manyThemes_names = Inr True"
    by (simp add: manyThemes_names_def homeOnly_fields)
  moreover have "SetRecommendations homeOnly ''1'' manyThemes_names
       = Inr (homeOnly\<lparr>Recommendations := [(''1'', 9)]\<rparr>, 9)"
    by (simp add: manyThemes_names_def SetRecommendations_def homeOnly_fields map_store_def
        homeOnly_Recommendations)
  ultimately show ?thesis by blast
qed

text \<open>
  C9, amended: when every theme passed names a boolean field and the condition of the
  rule is true, the action stores a score of at least \<open>20 - themeCount\<close>, so at least 10
  when the rule has at most ten themes. The number of themes of a rule is not bounded
  by ten, since keys that differ in the case of the first letter give the same name.
\<close>

theorem fired_rule_score_bound:
  assumes "\<forall>t \<in> set themes. t \<in> set vocabulary"
    and "IsSongThemeMatch p sid themes = Inr True"
  shows "\<exists>p' v. SetRecommendations p sid themes = Inr (p', v)
           \<and> map_of (Recommendations p') sid = Some v
           \<and> 20 - int (length themes) \<le> v
           \<and> (length themes \<le> 10 \<longrightarrow> 10 \<le> v)"
proof -
  have "1 \<le> selectedCount p themes"
    using selectedCount_pos [OF IsSongThemeMatch_True_selected [OF assms(2)]] .
  then have "20 - int (length themes) \<le> 20 * selectedCount p themes - int (length themes)"
    by simp
  then show ?thesis
    using SetRecommendations_vocabulary [OF assms(1), of p sid]
    by (auto simp: map_of_map_store)
qed

theorem fired_rule_score_bound_witness:
  "set [''Love'', ''Home''] \<subseteq> set vocabulary
   \<and> IsSongThemeMatch homeOnly ''7'' [''Love'', ''Home''] = Inr True
   \<and> (\<exists>p' v. SetRecommendations homeOnly ''7'' [''Love'', ''Home''] = Inr (p', v)
         \<and> map_of (Recommendations p') ''7'' = Some v \<and> 10 \<le> v)"
proof -
  have h1: "\<forall>t \<in> set [''Love'', ''Home'']. t \<in> set vocabulary"
    by (simp add: vocabulary_def)
  have h2: "IsSongThemeMatch homeOnly ''7'' [''Love'', ''Home''] = Inr True"
    by (simp add: homeOnly_fields)
  have "set [''Love'', ''Home''] \<subseteq> set vocabulary"
    using h1 by auto
  then show ?thesis
    using h2 fired_rule_score_bound [OF h1 h2] by auto
qed

section \<open>Facts about sorting and selection\<close>

lemma mset_sink: "mset (sink f x ys) = add_mset x (mset ys)"
  by (induction ys) auto

lemma set_sink: "set (sink f x ys) = insert x (set ys)"
  using mset_sink [of f x ys] by (metis set_mset_add_mset_insert set_mset_mset)

lemma sorted_sink:
  "sorted_wrt (\<lambda>a b. snd a \<le> snd b) ys \<Longrightarrow>
   sorted_wrt (\<lambda>a b. snd a \<le> snd b) (sink byValueDesc x ys)"
proof (induction ys)
  case Nil
  then show ?case by simp
next
  case (Cons y ys)
  show ?case
  proof (cases "byValueDesc x y")
    case True
    then have "snd y \<le> snd x" by (simp add: byValueDesc_def)
    with Cons show ?thesis using True by (auto simp: set_sink)
  next
    case False
    then have "snd x \<le> snd y" by (simp add: byValueDesc_def)
    with Cons.prems show ?thesis using False by auto
  qed
qed

lemma foldl_sink:
  "mset (foldl (\<lambda>prefix x. sink f x prefix) acc xs) = mset acc + mset xs"
  by (induction xs arbitrary: acc) (simp_all add: mset_sink)

lemma foldl_sink_sorted:
  "sorted_wrt (\<lambda>a b. snd a \<le> snd b) acc \<Longrightarrow>
   sorted_wrt (\<lambda>a b. snd a \<le> snd b) (foldl (\<lambda>prefix x. sink byValueDesc x prefix) acc xs)"
  by (induction xs arbitrary: acc) (simp_all add: sorted_sink)

lemma insertionSort_contract: "sort_Slice_contract insertionSort"
proof -
  have "mset (insertionSort byValueDesc xs) = mset xs" for xs
    by (simp add: insertionSort_def foldl_sink)
  moreover have "sorted_wrt (\<lambda>a b. \<not> byValueDesc b a) (insertionSort byValueDesc xs)" for xs
  proof -
    have "sorted_wrt (\<lambda>a b. snd a \<le> snd b)
            (foldl (\<lambda>prefix x. sink byValueDesc x prefix) [] xs)"
      by (rule foldl_sink_sorted) simp
    then show ?thesis
      by (simp add: insertionSort_def sorted_wrt_rev byValueDesc_def not_less)
  qed
  ultimately show ?thesis by (simp add: sort_Slice_contract_def)
qed

lemma contract_mset: "sort_Slice_contract srt \<Longrightarrow> mset (srt byValueDesc xs) = mset xs"
  by (simp add: sort_Slice_contract_def)

lemma contract_length: "sort_Slice_contract srt \<Longrightarrow> length (srt byValueDesc xs) = length xs"
  using contract_mset [of srt xs] by (metis size_mset)

lemma contract_set: "sort_Slice_contract srt \<Longrightarrow> set (srt byValueDesc xs) = set xs"
  using contract_mset [of srt xs] by (metis set_mset_mset)

lemma contract_sorted:
  "sort_Slice_contract srt \<Longrightarrow> sorted_wrt (\<lambda>a b. snd b \<le> snd a) (srt byValueDesc xs)"
proof -
  assume "sort_Slice_contract srt"
  then have "sorted_wrt (\<lambda>a b. \<not> byValueDesc b a) (srt byValueDesc xs)"
    by (simp add: sort_Slice_contract_def)
  then show ?thesis by (simp add: byValueDesc_def not_less)
qed

lemma contract_distinct:
  assumes "sort_Slice_contract srt" and "go_map xs"
  shows "distinct (map fst (srt byValueDesc xs))"
proof -
  have "mset (map fst (srt byValueDesc xs)) = mset (map fst xs)"
    using contract_mset [OF assms(1), of xs] by (metis mset_map)
  then show ?thesis
    using assms(2) by (metis go_map_def mset_eq_imp_distinct_iff)
qed

lemma go_map_card: "go_map m \<Longrightarrow> card (dom (map_of m)) = length m"
  by (simp add: go_map_def dom_map_of_conv_image_fst distinct_card flip: set_map)

lemma go_map_lookup_int: "go_map m \<Longrightarrow> e \<in> set m \<Longrightarrow> lookup_int m (fst e) = snd e"
  by (cases e) (simp add: go_map_def lookup_int_def)

lemma getTopNRecommendations_nonneg:
  "0 \<le> N \<Longrightarrow>
   getTopNRecommendations srt recs N
     = Inr (map fst (take (nat N) (srt byValueDesc recs)))"
  by (auto simp: getTopNRecommendations_def Let_def)

lemma lookup_bool_map_store:
  "lookup_bool (map_store m k True) k' = (k' = k \<or> lookup_bool m k')"
  by (simp add: lookup_bool_def map_of_map_store)

lemma lookup_bool_ruleIDMap:
  "lookup_bool (ruleIDMap ids m) k = (k \<in> set ids \<or> lookup_bool m k)"
  by (induction ids arbitrary: m) (auto simp: lookup_bool_map_store)

lemma filterDocuments_loop_filter:
  "filterDocuments_loop m documents = filter (\<lambda>doc. lookup_bool m (RuleID doc)) documents"
  by (induction documents) simp_all

lemma lookup_bool_empty: "lookup_bool [] k = False"
  by (simp add: lookup_bool_def)

lemma filterDocuments_filter:
  "filterDocuments documents ids = filter (\<lambda>doc. RuleID doc \<in> set ids) documents"
  by (simp add: filterDocuments_def filterDocuments_loop_filter lookup_bool_ruleIDMap
      lookup_bool_empty)

lemma RuleID_updatedDoc: "RuleID (updatedDoc ul keys doc) = RuleID doc"
  by (simp add: updatedDoc_def)

lemma RuleID_generateThemeUpdatedDocs:
  "map RuleID (generateThemeUpdatedDocs ul docs u) = map RuleID docs"
  by (simp add: generateThemeUpdatedDocs_def RuleID_updatedDoc)

section \<open>The number of identifiers selected\<close>

text \<open>
  C6, as stated, fails: \<open>N\<close> is a Go \<^verbatim>\<open>int\<close>, only its upper side is clamped, and at
  \<open>N = -1\<close> the slice expression \<^verbatim>\<open>sortedList[:N]\<close> panics instead of returning
  identifiers.
\<close>

theorem getTopNRecommendations_negative_counterexample:
  "getTopNRecommendations insertionSort [(''A'', 18), (''B'', 19)] (- 1)
     = Inl (PanicSliceBounds (- 1))"
  by (simp add: getTopNRecommendations_def insertionSort_def byValueDesc_def)

text \<open>
  C6, amended: for every score map and every \<open>N\<close> that is not negative,
  \<^verbatim>\<open>getTopNRecommendations\<close> returns, without a panic, exactly \<open>min N |scoreMap|\<close>
  identifiers; when \<open>N\<close> is not less than the number of scored documents, these are
  all of them. For every negative \<open>N\<close> it panics on the slice bound.
\<close>

theorem getTopNRecommendations_length:
  assumes "sort_Slice_contract srt" and "go_map recommendations"
  shows "(0 \<le> N \<longrightarrow>
            (\<exists>ids. getTopNRecommendations srt recommendations N = Inr ids
               \<and> int (length ids) = min N (int (card (dom (map_of recommendations))))
               \<and> (int (card (dom (map_of recommendations))) \<le> N
                    \<longrightarrow> set ids = dom (map_of recommendations))))
       \<and> (N < 0 \<longrightarrow>
            getTopNRecommendations srt recommendations N = Inl (PanicSliceBounds N))"
proof (intro conjI impI)
  assume neg: "N < 0"
  then have "\<not> int (length (srt byValueDesc recommendations)) < N" by simp
  with neg show "getTopNRecommendations srt recommendations N = Inl (PanicSliceBounds N)"
    by (simp add: getTopNRecommendations_def Let_def)
next
  assume nonneg: "0 \<le> N"
  let ?s = "srt byValueDesc recommendations"
  let ?ids = "map fst (take (nat N) ?s)"
  have len: "length ?s = length recommendations"
    using contract_length [OF assms(1)] .
  have card: "card (dom (map_of recommendations)) = length recommendations"
    using go_map_card [OF assms(2)] .
  have "int (length ?ids) = min N (int (length recommendations))"
    using nonneg len by (auto simp: min_def)
  moreover have "set ?ids = dom (map_of recommendations)" if "int (length recommendations) \<le> N"
  proof -
    from that len have "take (nat N) ?s = ?s" by simp
    then show ?thesis
      using contract_set [OF assms(1), of recommendations]
      by (simp add: dom_map_of_conv_image_fst)
  qed
  ultimately show "\<exists>ids. getTopNRecommendations srt recommendations N = Inr ids
               \<and> int (length ids) = min N (int (card (dom (map_of recommendations))))
               \<and> (int (card (dom (map_of recommendations))) \<le> N
                    \<longrightarrow> set ids = dom (map_of recommendations))"
    using getTopNRecommendations_nonneg [OF nonneg, of srt recommendations] card by simp
qed

theorem getTopNRecommendations_length_witness:
  "sort_Slice_contract insertionSort \<and> go_map [(''A'', 18), (''B'', 19 :: int)] \<and> (0::int) \<le> 3
   \<and> (\<exists>ids. getTopNRecommendations insertionSort [(''A'', 18), (''B'', 19)] 3 = Inr ids
         \<and> length ids = 2 \<and> set ids = {''A'', ''B''})
   \<and> (- 5 :: int) < 0
   \<and> getTopNRecommendations insertionSort [(''A'', 18), (''B'', 19)] (- 5)
       = Inl (PanicSliceBounds (- 5))"
proof -
  have h2: "go_map [(''A'', 18), (''B'', 19 :: int)]" by (simp add: go_map_def)
  have h3: "(0::int) \<le> 3" by simp
  have h4: "(- 5 :: int) < 0" by simp
  have "card (dom (map_of [(''A'', 18), (''B'', 19 :: int)])) = 2"
    using go_map_card [OF h2] by simp
  moreover have "dom (map_of [(''A'', 18), (''B'', 19 :: int)]) = {''A'', ''B''}"
    by auto
  ultimately have "\<exists>ids. getTopNRecommendations insertionSort [(''A'', 18), (''B'', 19)] 3 = Inr ids
         \<and> length ids = 2 \<and> set ids = {''A'', ''B''}"
    using getTopNRecommendations_length [OF insertionSort_contract h2, of 3] by auto
  moreover have "getTopNRecommendations insertionSort [(''A'', 18), (''B'', 19)] (- 5)
       = Inl (PanicSliceBounds (- 5))"
    using getTopNRecommendations_length [OF insertionSort_contract h2, of "- 5"] by simp
  ultimately show ?thesis using insertionSort_contract h2 h3 h4 by blast
qed

section \<open>The order of the selected identifiers\<close>

text \<open>
  C5, as stated, fails: the function receives the score map alone, and a Go map keeps
  no insertion order. Here one score map with a tie, visited in its two possible
  orders, gives the two possible rankings, so the document compiled first is not
  always ranked first.
\<close>

theorem topN_tie_order_counterexample:
  "map_of [(''B'', 19), (''A'', 19 :: int)] = map_of [(''A'', 19), (''B'', 19)]
   \<and> getTopNRecommendations insertionSort [(''A'', 19), (''B'', 19)] 3 = Inr [''A'', ''B'']
   \<and> getTopNRecommendations insertionSort [(''B'', 19), (''A'', 19)] 3 = Inr [''B'', ''A'']"
proof -
  have "map_of [(''B'', 19), (''A'', 19 :: int)] = map_of [(''A'', 19), (''B'', 19)]"
    by (rule ext) simp
  moreover have "getTopNRecommendations insertionSort [(''A'', 19), (''B'', 19)] 3
      = Inr [''A'', ''B'']"
    by (simp add: getTopNRecommendations_def insertionSort_def byValueDesc_def)
  moreover have "getTopNRecommendations insertionSort [(''B'', 19), (''A'', 19)] 3
      = Inr [''B'', ''A'']"
    by (simp add: getTopNRecommendations_def insertionSort_def byValueDesc_def)
  ultimately show ?thesis by blast
qed

text \<open>
  C5, amended: for every score map and every count \<open>N\<close>, the identifiers
  \<^verbatim>\<open>getTopNRecommendations\<close> returns are distinct keys of the map in descending order
  of score, and no key left out scores more than a key returned. The order of two
  documents with equal scores is not determined: it follows the iteration order of
  the map and the sort, which is not stable.
\<close>

theorem getTopNRecommendations_descending:
  assumes "sort_Slice_contract srt" and "go_map recommendations" and "0 \<le> N"
  shows "\<exists>ids. getTopNRecommendations srt recommendations N = Inr ids
           \<and> sorted_wrt (\<lambda>a b. lookup_int recommendations b \<le> lookup_int recommendations a) ids
           \<and> distinct ids
           \<and> set ids \<subseteq> dom (map_of recommendations)
           \<and> (\<forall>k \<in> dom (map_of recommendations) - set ids. \<forall>i \<in> set ids.
                 lookup_int recommendations k \<le> lookup_int recommendations i)"
proof -
  let ?s = "srt byValueDesc recommendations"
  let ?n = "nat N"
  let ?ids = "map fst (take ?n ?s)"
  let ?score = "lookup_int recommendations"
  have set_s: "set ?s = set recommendations"
    using contract_set [OF assms(1)] .
  have score: "?score (fst e) = snd e" if "e \<in> set ?s" for e
    using that set_s go_map_lookup_int [OF assms(2)] by auto
  have sorted_s: "sorted_wrt (\<lambda>a b. snd b \<le> snd a) ?s"
    using contract_sorted [OF assms(1)] .
  have dist_s: "distinct (map fst ?s)"
    using contract_distinct [OF assms(1) assms(2)] .
  have split: "?s = take ?n ?s @ drop ?n ?s" by simp
  have "sorted_wrt (\<lambda>a b. snd b \<le> snd a) (take ?n ?s)"
    using sorted_s by (rule sorted_wrt_take)
  then have "sorted_wrt (\<lambda>a b. ?score (fst b) \<le> ?score (fst a)) (take ?n ?s)"
  proof (rule sorted_wrt_mono_rel [rotated])
    fix a b
    assume "a \<in> set (take ?n ?s)" "b \<in> set (take ?n ?s)" "snd b \<le> snd a"
    then show "?score (fst b) \<le> ?score (fst a)"
      using score [of a] score [of b] by (metis in_set_takeD)
  qed
  then have a: "sorted_wrt (\<lambda>a b. ?score b \<le> ?score a) ?ids"
    by (simp add: sorted_wrt_map)
  have b: "distinct ?ids"
    using dist_s by (simp add: take_map [symmetric] distinct_take del: take_map)
  have c: "set ?ids \<subseteq> dom (map_of recommendations)"
    using set_s by (auto simp: dom_map_of_conv_image_fst dest: in_set_takeD)
  have d: "\<forall>k \<in> dom (map_of recommendations) - set ?ids. \<forall>i \<in> set ?ids. ?score k \<le> ?score i"
  proof (intro ballI)
    fix k i
    assume k: "k \<in> dom (map_of recommendations) - set ?ids" and i: "i \<in> set ?ids"
    from k set_s obtain e where e: "e \<in> set ?s" "fst e = k"
      by (auto simp: dom_map_of_conv_image_fst)
    with k have "e \<notin> set (take ?n ?s)" by auto
    with e(1) have e_drop: "e \<in> set (drop ?n ?s)"
      by (metis Un_iff append_take_drop_id set_append)
    from i obtain x where x: "x \<in> set (take ?n ?s)" "fst x = i" by auto
    have "sorted_wrt (\<lambda>a b. snd b \<le> snd a) (take ?n ?s @ drop ?n ?s)"
      using sorted_s by simp
    then have "\<forall>a \<in> set (take ?n ?s). \<forall>b \<in> set (drop ?n ?s). snd b \<le> snd a"
      unfolding sorted_wrt_append by blast
    then have "snd e \<le> snd x"
      using x(1) e_drop by blast
    moreover have "?score k = snd e" using score [OF e(1)] e(2) by simp
    moreover have "?score i = snd x" using score [of x] x by (metis in_set_takeD)
    ultimately show "?score k \<le> ?score i" by simp
  qed
  show ?thesis
    using getTopNRecommendations_nonneg [OF assms(3), of srt recommendations] a b c d by simp
qed

theorem getTopNRecommendations_descending_witness:
  "sort_Slice_contract insertionSort \<and> go_map [(''A'', 18), (''B'', 19 :: int)] \<and> (0::int) \<le> 1
   \<and> getTopNRecommendations insertionSort [(''A'', 18), (''B'', 19)] 1 = Inr [''B'']
   \<and> (\<exists>ids. getTopNRecommendations insertionSort [(''A'', 18), (''B'', 19)] 1 = Inr ids
         \<and> distinct ids \<and> set ids \<subseteq> dom (map_of [(''A'', 18), (''B'', 19 :: int)]))"
proof -
  have h2: "go_map [(''A'', 18), (''B'', 19 :: int)]" by (simp add: go_map_def)
  have h3: "(0::int) \<le> 1" by simp
  have ev: "getTopNRecommendations insertionSort [(''A'', 18), (''B'', 19)] 1 = Inr [''B'']"
    by (simp add: getTopNRecommendations_def insertionSort_def byValueDesc_def)
  have "\<exists>ids. getTopNRecommendations insertionSort [(''A'', 18), (''B'', 19)] 1 = Inr ids
         \<and> distinct ids \<and> set ids \<subseteq> dom (map_of [(''A'', 18), (''B'', 19 :: int)])"
    using getTopNRecommendations_descending [OF insertionSort_contract h2 h3] by blast
  with insertionSort_contract h2 h3 ev show ?thesis by blast
qed

section \<open>The order of the returned documents\<close>

text \<open>
  C2, as stated, fails: in the catalog A comes before B, B scores more than A, the
  selector returns B before A, and the pipeline returns A before B.
\<close>

theorem pipeline_order_counterexample:
  "SetRecommendations homeOnly ''A'' [''Home'', ''Love'']
     = Inr (homeOnly\<lparr>Recommendations := [(''A'', 18)]\<rparr>, 18)
   \<and> SetRecommendations (homeOnly\<lparr>Recommendations := [(''A'', 18)]\<rparr>) ''B'' [''Home'']
     = Inr (scoredAB, 19)
   \<and> getTopNRecommendations insertionSort (Recommendations scoredAB) 3 = Inr [''B'', ''A'']
   \<and> filterDocumentsByRecommendations insertionSort (\<lambda>s. s) catalogAB scoredAB
     = Inr [song ''A'' ''T'' [(''Home'', ''x''), (''Love'', '''')],
            song ''B'' ''U'' [(''Home'', ''z'')]]"
proof -
  have a: "SetRecommendations homeOnly ''A'' [''Home'', ''Love'']
      = Inr (homeOnly\<lparr>Recommendations := [(''A'', 18)]\<rparr>, 18)"
    by (simp add: SetRecommendations_def homeOnly_fields map_store_def homeOnly_Recommendations)
  have b: "SetRecommendations (homeOnly\<lparr>Recommendations := [(''A'', 18)]\<rparr>) ''B'' [''Home'']
      = Inr (scoredAB, 19)"
    by (simp add: SetRecommendations_def GetField_def homeOnly_def map_store_def scoredAB_def)
  have c: "getTopNRecommendations insertionSort (Recommendations scoredAB) 3 = Inr [''B'', ''A'']"
    by (simp add: scoredAB_def getTopNRecommendations_def insertionSort_def byValueDesc_def)
  have keys: "themeKeys (\<lambda>s. s) scoredAB =
      [(''adventure'', False), (''america'', False), (''carstruckstractors'', False),
       (''goodtimes'', False), (''grit'', False), (''home'', True), (''love'', False),
       (''heartbreak'', False), (''lessons'', False), (''rebellion'', False)]"
    by code_simp
  have low: "ToLower (\<lambda>s. s) ''Home'' = ''home''" "ToLower (\<lambda>s. s) ''Love'' = ''love''"
    by code_simp+
  have d: "filterDocumentsByRecommendations insertionSort (\<lambda>s. s) catalogAB scoredAB
      = Inr [song ''A'' ''T'' [(''Home'', ''x''), (''Love'', '''')],
             song ''B'' ''U'' [(''Home'', ''z'')]]"
    by (simp add: filterDocumentsByRecommendations_def c filterDocuments_filter catalogAB_def
        song_def generateThemeUpdatedDocs_def updatedDoc_def keys low lookup_bool_def
        map_store_def)
  from a b c d show ?thesis by blast
qed

text \<open>
  C2, amended: for every catalog and user record, the pipeline returns the documents
  whose identifier is among those the selector returns, in the order of the catalog
  and not in the selector's order, each redacted; the redaction step keeps the order
  and the identifiers of the documents it is given.
\<close>

theorem filterDocumentsByRecommendations_catalog_order:
  "\<exists>topRuleIDs out.
      getTopNRecommendations srt (Recommendations u) 3 = Inr topRuleIDs
    \<and> filterDocumentsByRecommendations srt ul documents u = Inr out
    \<and> out = generateThemeUpdatedDocs ul
              (filter (\<lambda>doc. RuleID doc \<in> set topRuleIDs) documents) u
    \<and> map RuleID out = filter (\<lambda>rid. rid \<in> set topRuleIDs) (map RuleID documents)
    \<and> map RuleID (generateThemeUpdatedDocs ul docs u) = map RuleID docs"
proof -
  let ?top = "map fst (take (nat 3) (srt byValueDesc (Recommendations u)))"
  let ?out = "generateThemeUpdatedDocs ul (filter (\<lambda>doc. RuleID doc \<in> set ?top) documents) u"
  have top: "getTopNRecommendations srt (Recommendations u) 3 = Inr ?top"
    by (rule getTopNRecommendations_nonneg) simp
  have "filterDocumentsByRecommendations srt ul documents u = Inr ?out"
    by (simp add: filterDocumentsByRecommendations_def top filterDocuments_filter)
  moreover have "map RuleID ?out = filter (\<lambda>rid. rid \<in> set ?top) (map RuleID documents)"
    by (simp add: RuleID_generateThemeUpdatedDocs filter_map comp_def)
  ultimately show ?thesis
    using top RuleID_generateThemeUpdatedDocs [of ul docs u] by blast
qed

theorem filterDocumentsByRecommendations_catalog_order_witness:
  "\<exists>topRuleIDs out.
      getTopNRecommendations insertionSort (Recommendations scoredAB) 3 = Inr topRuleIDs
    \<and> filterDocumentsByRecommendations insertionSort (\<lambda>s. s) catalogAB scoredAB = Inr out
    \<and> map RuleID out = filter (\<lambda>rid. rid \<in> set topRuleIDs) (map RuleID catalogAB)"
  using filterDocumentsByRecommendations_catalog_order
    [of insertionSort scoredAB "\<lambda>s. s" catalogAB "[]"]
  by blast

section \<open>Facts about the redaction loop\<close>

lemma ToLower_vocabulary:
  "ToLower ul ''Adventure'' = ''adventure''"
  "ToLower ul ''America'' = ''america''"
  "ToLower ul ''CarsTrucksTractors'' = ''carstruckstractors''"
  "ToLower ul ''Goodtimes'' = ''goodtimes''"
  "ToLower ul ''Grit'' = ''grit''"
  "ToLower ul ''Home'' = ''home''"
  "ToLower ul ''Love'' = ''love''"
  "ToLower ul ''HeartBreak'' = ''heartbreak''"
  "ToLower ul ''Lessons'' = ''lessons''"
  "ToLower ul ''Rebellion'' = ''rebellion''"
  by code_simp+

lemma GetField_flags:
  "GetField u ''Adventure'' = Inr (Adventure u)"
  "GetField u ''America'' = Inr (America u)"
  "GetField u ''CarsTrucksTractors'' = Inr (CarsTrucksTractors u)"
  "GetField u ''Goodtimes'' = Inr (Goodtimes u)"
  "GetField u ''Grit'' = Inr (Grit u)"
  "GetField u ''Home'' = Inr (Home u)"
  "GetField u ''Love'' = Inr (Love u)"
  "GetField u ''HeartBreak'' = Inr (HeartBreak u)"
  "GetField u ''Lessons'' = Inr (Lessons u)"
  "GetField u ''Rebellion'' = Inr (Rebellion u)"
  by (simp_all add: GetField_def)

lemma selected_ci_themeKeys:
  "lookup_bool (themeKeys ul u) (ToLower ul theme) = selected_ci ul u theme"
  by (auto simp: selected_ci_def vocabulary_def themeKeys_def lookup_bool_def
      ToLower_vocabulary GetField_flags)

lemma map_store_fresh: "k \<notin> fst ` set m \<Longrightarrow> map_store m k v = m @ [(k, v)]"
  by (induction m) (auto simp: map_store_def)

lemma set_map_store: "set (map_store m k v) \<subseteq> insert (k, v) (set m)"
  by (induction m) (auto simp: map_store_def)

lemma keys_map_store: "fst ` set (map_store m k v) = insert k (fst ` set m)"
  by (simp add: map_store_def dom_update)

lemma go_map_map_store: "go_map m \<Longrightarrow> go_map (map_store m k v)"
  by (simp add: go_map_def map_store_def distinct_update)

lemma updatedThemes_Cons:
  "updatedThemes ul keys ((k, v) # rest) acc
     = updatedThemes ul keys rest
         (map_store acc k (if lookup_bool keys (ToLower ul k) then v else []))"
  by (simp add: Let_def)

lemma updatedThemes_keys:
  "fst ` set (updatedThemes ul keys themes acc) = fst ` set acc \<union> fst ` set themes"
proof (induction themes arbitrary: acc)
  case Nil
  then show ?case by simp
next
  case (Cons e themes)
  obtain k v where e: "e = (k, v)" by (cases e)
  show ?case
    unfolding e updatedThemes_Cons Cons.IH keys_map_store by auto
qed

lemma updatedThemes_go_map:
  "go_map acc \<Longrightarrow> go_map (updatedThemes ul keys themes acc)"
proof (induction themes arbitrary: acc)
  case Nil
  then show ?case by simp
next
  case (Cons e themes)
  obtain k v where e: "e = (k, v)" by (cases e)
  show ?case
    unfolding e updatedThemes_Cons
    by (rule Cons.IH) (rule go_map_map_store [OF Cons.prems])
qed

lemma updatedThemes_fresh:
  "distinct (map fst themes) \<Longrightarrow> fst ` set themes \<inter> fst ` set acc = {} \<Longrightarrow>
   updatedThemes ul keys themes acc
     = acc @ map (\<lambda>(k, v). (k, if lookup_bool keys (ToLower ul k) then v else [])) themes"
proof (induction themes arbitrary: acc)
  case Nil
  then show ?case by simp
next
  case (Cons e themes)
  obtain k v where e: "e = (k, v)" by (cases e)
  let ?v = "if lookup_bool keys (ToLower ul k) then v else []"
  from Cons.prems e have fresh: "k \<notin> fst ` set acc" by auto
  have step: "map_store acc k ?v = acc @ [(k, ?v)]"
    using map_store_fresh [OF fresh] .
  from Cons.prems e have d: "distinct (map fst themes)" by simp
  from Cons.prems e have "fst ` set themes \<inter> fst ` set (acc @ [(k, ?v)]) = {}"
    by (auto simp: image_iff)
  from Cons.IH [OF d this] show ?case
    unfolding e updatedThemes_Cons step by simp
qed

lemma updatedThemes_fixed:
  "\<forall>(k, v) \<in> set acc. (if lookup_bool keys (ToLower ul k) then v else []) = v \<Longrightarrow>
   \<forall>(k, v) \<in> set (updatedThemes ul keys themes acc).
      (if lookup_bool keys (ToLower ul k) then v else []) = v"
proof (induction themes arbitrary: acc)
  case Nil
  then show ?case by simp
next
  case (Cons e themes)
  obtain k v where e: "e = (k, v)" by (cases e)
  let ?v = "if lookup_bool keys (ToLower ul k) then v else []"
  have "(if lookup_bool keys (ToLower ul k) then ?v else []) = ?v" by simp
  then have "\<forall>(k', v') \<in> insert (k, ?v) (set acc).
          (if lookup_bool keys (ToLower ul k') then v' else []) = v'"
    using Cons.prems by blast
  then have "\<forall>(k', v') \<in> set (map_store acc k ?v).
          (if lookup_bool keys (ToLower ul k') then v' else []) = v'"
    using set_map_store [of acc k ?v] by blast
  from Cons.IH [OF this] show ?case
    unfolding e updatedThemes_Cons .
qed

lemma updatedThemes_idem:
  "updatedThemes ul keys (updatedThemes ul keys themes []) []
     = updatedThemes ul keys themes []"
proof -
  let ?r = "updatedThemes ul keys themes []"
  have "go_map ?r" by (rule updatedThemes_go_map) (simp add: go_map_def)
  then have "distinct (map fst ?r)" by (simp add: go_map_def)
  then have "updatedThemes ul keys ?r []
      = map (\<lambda>(k, v). (k, if lookup_bool keys (ToLower ul k) then v else [])) ?r"
    using updatedThemes_fresh [of ?r "[]" ul keys] by simp
  moreover have "\<forall>(k, v) \<in> set ?r. (if lookup_bool keys (ToLower ul k) then v else []) = v"
    by (rule updatedThemes_fixed) simp
  then have "map (\<lambda>(k, v). (k, if lookup_bool keys (ToLower ul k) then v else [])) ?r = ?r"
    by (intro map_idI) auto
  ultimately show ?thesis by simp
qed

lemma map_of_map_keyed:
  "map_of (map (\<lambda>(k, v). (k, h k v)) xs) k = map_option (h k) (map_of xs k)"
  by (induction xs) auto

lemma updatedThemes_lookup:
  assumes "go_map themes" and "map_of themes k = Some v"
  shows "map_of (updatedThemes ul keys themes []) k
           = Some (if lookup_bool keys (ToLower ul k) then v else [])"
proof -
  have "updatedThemes ul keys themes []
      = map (\<lambda>(k, v). (k, if lookup_bool keys (ToLower ul k) then v else [])) themes"
    using updatedThemes_fresh [of themes "[]" ul keys] assms(1) by (simp add: go_map_def)
  then show ?thesis
    using assms(2)
      map_of_map_keyed [of "\<lambda>k v. if lookup_bool keys (ToLower ul k) then v else []" themes k]
    by simp
qed

section \<open>The redacted documents\<close>

text \<open>
  C7: for every document and every user record, the document
  \<^verbatim>\<open>generateThemeUpdatedDocs\<close> returns for it has the same identifier and display
  fields and a theme map with exactly the same keys; the value of a key is the
  original one when the user selected the theme under case-insensitive comparison, and
  the empty string otherwise. The documents come back one for one, in the same order.
\<close>

theorem generateThemeUpdatedDocs_redacts:
  assumes "\<forall>d \<in> set docs. go_map (Themes d)"
  shows "list_all2
           (\<lambda>d r. RuleID r = RuleID d \<and> Artist r = Artist d \<and> Title r = Title d
               \<and> LyricQuote r = LyricQuote d \<and> VideoLink r = VideoLink d
               \<and> go_map (Themes r)
               \<and> dom (map_of (Themes r)) = dom (map_of (Themes d))
               \<and> (\<forall>k v. map_of (Themes d) k = Some v \<longrightarrow>
                     map_of (Themes r) k = Some (if selected_ci ul u k then v else [])))
           docs (generateThemeUpdatedDocs ul docs u)"
proof -
  let ?keys = "themeKeys ul u"
  have "RuleID (updatedDoc ul ?keys d) = RuleID d \<and> Artist (updatedDoc ul ?keys d) = Artist d
        \<and> Title (updatedDoc ul ?keys d) = Title d
        \<and> LyricQuote (updatedDoc ul ?keys d) = LyricQuote d
        \<and> VideoLink (updatedDoc ul ?keys d) = VideoLink d
        \<and> go_map (Themes (updatedDoc ul ?keys d))
        \<and> dom (map_of (Themes (updatedDoc ul ?keys d))) = dom (map_of (Themes d))
        \<and> (\<forall>k v. map_of (Themes d) k = Some v \<longrightarrow>
              map_of (Themes (updatedDoc ul ?keys d)) k
                = Some (if selected_ci ul u k then v else []))"
    if d: "d \<in> set docs" for d
  proof -
    from assms d have gm: "go_map (Themes d)" by simp
    have "go_map (updatedThemes ul ?keys (Themes d) [])"
      by (rule updatedThemes_go_map) (simp add: go_map_def)
    moreover have "dom (map_of (updatedThemes ul ?keys (Themes d) [])) = dom (map_of (Themes d))"
      by (simp add: dom_map_of_conv_image_fst updatedThemes_keys)
    moreover have "map_of (updatedThemes ul ?keys (Themes d) []) k
          = Some (if selected_ci ul u k then v else [])"
      if "map_of (Themes d) k = Some v" for k v
      using updatedThemes_lookup [OF gm that, of ul ?keys]
      by (simp add: selected_ci_themeKeys)
    ultimately show ?thesis by (simp add: updatedDoc_def)
  qed
  then show ?thesis
    unfolding generateThemeUpdatedDocs_def list_all2_map2 by (intro list_all2_all_nthI) auto
qed

theorem generateThemeUpdatedDocs_redacts_witness:
  "list_all (\<lambda>d. go_map (Themes d)) catalogAB
   \<and> generateThemeUpdatedDocs (\<lambda>s. s) catalogAB homeOnly
       = [song ''A'' ''T'' [(''Home'', ''x''), (''Love'', '''')],
          song ''B'' ''U'' [(''Home'', ''z'')]]
   \<and> list_all2 (\<lambda>d r. Title r = Title d \<and> dom (map_of (Themes r)) = dom (map_of (Themes d)))
        catalogAB (generateThemeUpdatedDocs (\<lambda>s. s) catalogAB homeOnly)"
proof -
  have h: "\<forall>d \<in> set catalogAB. go_map (Themes d)"
    by (simp add: catalogAB_def song_def go_map_def)
  have keys: "themeKeys (\<lambda>s. s) homeOnly =
      [(''adventure'', False), (''america'', False), (''carstruckstractors'', False),
       (''goodtimes'', False), (''grit'', False), (''home'', True), (''love'', False),
       (''heartbreak'', False), (''lessons'', False), (''rebellion'', False)]"
    by (simp add: themeKeys_def ToLower_vocabulary homeOnly_def)
  have ev: "generateThemeUpdatedDocs (\<lambda>s. s) catalogAB homeOnly
       = [song ''A'' ''T'' [(''Home'', ''x''), (''Love'', '''')],
          song ''B'' ''U'' [(''Home'', ''z'')]]"
    by (simp add: catalogAB_def song_def generateThemeUpdatedDocs_def updatedDoc_def keys
        ToLower_vocabulary lookup_bool_def map_store_def)
  have "list_all2 (\<lambda>d r. Title r = Title d \<and> dom (map_of (Themes r)) = dom (map_of (Themes d)))
        catalogAB (generateThemeUpdatedDocs (\<lambda>s. s) catalogAB homeOnly)"
    using generateThemeUpdatedDocs_redacts [OF h, of "\<lambda>s. s" homeOnly]
    by (rule list_all2_mono) simp
  moreover have "list_all (\<lambda>d. go_map (Themes d)) catalogAB"
    using h by (simp add: list_all_iff)
  ultimately show ?thesis using ev by blast
qed

text \<open>
  C8: redaction is idempotent: applying \<^verbatim>\<open>generateThemeUpdatedDocs\<close> with the same
  user record to its own output gives that output again; and in whatever order the
  second pass visits the themes of a redacted document, it builds the same theme map.
\<close>

theorem generateThemeUpdatedDocs_idempotent:
  "generateThemeUpdatedDocs ul (generateThemeUpdatedDocs ul docs u) u
     = generateThemeUpdatedDocs ul docs u
   \<and> (go_map again
        \<and> map_of again = map_of (updatedThemes ul (themeKeys ul u) themes [])
      \<longrightarrow> map_of (updatedThemes ul (themeKeys ul u) again [])
            = map_of (updatedThemes ul (themeKeys ul u) themes []))"
proof -
  let ?keys = "themeKeys ul u"
  let ?r = "updatedThemes ul ?keys themes []"
  have a: "generateThemeUpdatedDocs ul (generateThemeUpdatedDocs ul docs u) u
     = generateThemeUpdatedDocs ul docs u"
    by (simp add: generateThemeUpdatedDocs_def updatedDoc_def updatedThemes_idem)
  have b: "map_of (updatedThemes ul ?keys again []) = map_of ?r"
    if gm: "go_map again" and same: "map_of again = map_of ?r"
  proof (rule ext)
    fix k
    have fixed: "\<forall>(k, v) \<in> set ?r. (if lookup_bool ?keys (ToLower ul k) then v else []) = v"
      by (rule updatedThemes_fixed) simp
    show "map_of (updatedThemes ul ?keys again []) k = map_of ?r k"
    proof (cases "map_of ?r k")
      case None
      with same have "map_of again k = None" by simp
      then have "k \<notin> fst ` set again"
        by (simp add: map_of_eq_None_iff)
      then have "k \<notin> fst ` set (updatedThemes ul ?keys again [])"
        by (simp add: updatedThemes_keys)
      then have "map_of (updatedThemes ul ?keys again []) k = None"
        by (simp add: map_of_eq_None_iff)
      with None show ?thesis by simp
    next
      case (Some v)
      then have "(k, v) \<in> set ?r" by (rule map_of_SomeD)
      with fixed have "(if lookup_bool ?keys (ToLower ul k) then v else []) = v" by blast
      moreover from Some same have "map_of again k = Some v" by simp
      ultimately show ?thesis
        using updatedThemes_lookup [OF gm, of k v ul ?keys] Some by simp
    qed
  qed
  from a b show ?thesis by blast
qed

theorem generateThemeUpdatedDocs_idempotent_witness:
  "generateThemeUpdatedDocs (\<lambda>s. s) (generateThemeUpdatedDocs (\<lambda>s. s) catalogAB homeOnly) homeOnly
     = generateThemeUpdatedDocs (\<lambda>s. s) catalogAB homeOnly
   \<and> go_map [(''Love'', ''''), (''Home'', ''x'')]
   \<and> updatedThemes (\<lambda>s. s) (themeKeys (\<lambda>s. s) homeOnly) [(''Home'', ''x''), (''Love'', ''y'')] []
       = [(''Home'', ''x''), (''Love'', '''')]
   \<and> map_of (updatedThemes (\<lambda>s. s) (themeKeys (\<lambda>s. s) homeOnly)
               [(''Love'', ''''), (''Home'', ''x'')] [])
       = map_of [(''Home'', ''x''), (''Love'', '''')]"
proof -
  have keys: "themeKeys (\<lambda>s. s) homeOnly =
      [(''adventure'', False), (''america'', False), (''carstruckstractors'', False),
       (''goodtimes'', False), (''grit'', False), (''home'', True), (''love'', False),
       (''heartbreak'', False), (''lessons'', False), (''rebellion'', False)]"
    by (simp add: themeKeys_def ToLower_vocabulary homeOnly_def)
  have gm: "go_map [(''Love'', ''''), (''Home'', ''x'')]" by (simp add: go_map_def)
  have first: "updatedThemes (\<lambda>s. s) (themeKeys (\<lambda>s. s) homeOnly)
        [(''Home'', ''x''), (''Love'', ''y'')] [] = [(''Home'', ''x''), (''Love'', '''')]"
    by (simp add: keys ToLower_vocabulary lookup_bool_def map_store_def)
  have same: "map_of [(''Love'', ''''), (''Home'', ''x'')]
      = map_of (updatedThemes (\<lambda>s. s) (themeKeys (\<lambda>s. s) homeOnly)
                  [(''Home'', ''x''), (''Love'', ''y'')] [])"
    unfolding first by (rule ext) simp
  note inst = generateThemeUpdatedDocs_idempotent
    [of "\<lambda>s. s" catalogAB homeOnly "[(''Love'', ''''), (''Home'', ''x'')]"
      "[(''Home'', ''x''), (''Love'', ''y'')]"]
  from inst gm same first show ?thesis by simp
qed

section \<open>The text of the compiled rules\<close>

lemma sublist_Join: "x \<in> set xs \<Longrightarrow> sublist x (Join xs sep)"
proof (induction xs sep rule: Join.induct)
  case (1 sep)
  then show ?case by simp
next
  case (2 y sep)
  then show ?case by simp
next
  case (3 y z zs sep)
  show ?case
  proof (cases "x = y")
    case True
    then show ?thesis by (simp add: sublist_def) (metis append_Nil)
  next
    case False
    with 3 have "sublist x (Join (z # zs) sep)" by simp
    then obtain ps ss where "Join (z # zs) sep = ps @ x @ ss"
      by (auto simp: sublist_def)
    then have "Join (y # z # zs) sep = (y @ sep @ ps) @ x @ ss" by simp
    then show ?thesis unfolding sublist_def by blast
  qed
qed

lemma ruleText_header:
  "\<exists>ss. ruleText d
     = (''rule Check'' @ RuleID d @ '' '' @ quoted (Title d) @ '' salience 10 {'') @ ss"
  by (simp add: ruleText_def quoted_def Let_def)

lemma sublist_extractGrules_header:
  assumes "d \<in> set documents"
  shows "sublist (''rule Check'' @ RuleID d @ '' '' @ quoted (Title d) @ '' salience 10 {'')
           (extractGrules documents)"
proof -
  let ?h = "''rule Check'' @ RuleID d @ '' '' @ quoted (Title d) @ '' salience 10 {''"
  from assms have "sublist (ruleText d) (Join (map ruleText documents) [nl, nl])"
    by (intro sublist_Join) simp
  then obtain ps ss where j: "extractGrules documents = ps @ ruleText d @ ss"
    by (auto simp: sublist_def extractGrules_def)
  obtain ss' where "ruleText d = ?h @ ss'"
    using ruleText_header [of d] by blast
  with j have "extractGrules documents = ps @ ?h @ (ss' @ ss)" by simp
  then show ?thesis unfolding sublist_def by blast
qed

text \<open>
  C4 at a document whose only theme has an empty description: the compiler still
  produces a rule for it, and the theme list of the rule's condition and action is
  empty after the comma. Such a rule, once evaluated, stores nothing: the condition
  on no themes is false.
\<close>

theorem extractGrules_empty_themes_rule:
  \<open>ruleThemes (Themes noThemes) = []
   \<and> extractGrules [noThemes] =
       ''rule Check1 "T" salience 10 {\<newline>            when\<newline>               UserSelections.IsSongThemeMatch("1", )\<newline>            then\<newline>               UserSelections.SetRecommendations("1", );\<newline>               Retract("Check1");\<newline>        }''
   \<and> IsSongThemeMatch homeOnly ''1'' [] = Inr False\<close>
proof -
  have "ruleThemes (Themes noThemes) = []"
    by (simp add: noThemes_def song_def)
  moreover have \<open>extractGrules [noThemes] =
       ''rule Check1 "T" salience 10 {\<newline>            when\<newline>               UserSelections.IsSongThemeMatch("1", )\<newline>            then\<newline>               UserSelections.SetRecommendations("1", );\<newline>               Retract("Check1");\<newline>        }''\<close>
    by code_simp
  ultimately show ?thesis by simp
qed

text \<open>
  The compiler copies the title and the identifier of every document into the rule
  text as they are, the title between two double quotes with nothing escaped. A title
  that is one double quote gives a first line with three double quotes in a row.
\<close>

lemma extractGrules_title_copied:
  "(\<forall>d \<in> set documents.
      sublist (''rule Check'' @ RuleID d @ '' '' @ [dq] @ Title d @ [dq] @ '' salience 10 {'')
        (extractGrules documents))
   \<and> dq \<in> set (Title quoteTitle)
   \<and> takeWhile (\<lambda>c. c \<noteq> nl) (extractGrules [quoteTitle])
       = ''rule Check1 '' @ [dq, dq, dq] @ '' salience 10 {''"
proof -
  have a: "\<forall>d \<in> set documents.
      sublist (''rule Check'' @ RuleID d @ '' '' @ [dq] @ Title d @ [dq] @ '' salience 10 {'')
        (extractGrules documents)"
    using sublist_extractGrules_header [of _ documents] by (simp add: quoted_def)
  have b: "dq \<in> set (Title quoteTitle)"
    by (simp add: quoteTitle_def song_def)
  have c: "takeWhile (\<lambda>c. c \<noteq> nl) (extractGrules [quoteTitle])
       = ''rule Check1 '' @ [dq, dq, dq] @ '' salience 10 {''"
    by code_simp
  from a b c show ?thesis by blast
qed

end
